theory Spec2Isabelle
  imports Main "HOL-Library.Word" "HOL-Library.Sublist"
begin

section \<open>Strings\<close>

text \<open>
  A JavaScript string is a sequence of UTF-16 code units. File contents, prompts and
  completions are such strings; paths, model names and error messages are never
  inspected by the program and stay plain strings.
\<close>

type_synonym jschar = "16 word"
type_synonym jsstring = "jschar list"
type_synonym path = string

text \<open>An ASCII literal as a JavaScript string.\<close>

definition js :: "string \<Rightarrow> jsstring" where
  "js s = map of_char s"

section \<open>The template renderer (brush.js, line 124)\<close>

text \<open>
  The source is one library call:
  \<^verbatim>\<open>userPromptTemplate.replace(/{{\s*CONTENT\s*}}/g, content)\<close>.
  Its meaning is that of ECMAScript's \<^verbatim>\<open>RegExp.prototype[Symbol.replace]\<close> with a
  global pattern and a string as the replacement value.

  \<open>is_space\<close> is the character class \<^verbatim>\<open>\s\<close>: ECMAScript's WhiteSpace and
  LineTerminator code points.
\<close>

definition is_space :: "jschar \<Rightarrow> bool" where
  "is_space c \<longleftrightarrow>
     c = 0x9 \<or> c = 0xA \<or> c = 0xB \<or> c = 0xC \<or> c = 0xD \<or> c = 0x20 \<or> c = 0xA0 \<or>
     c = 0x1680 \<or> (0x2000 \<le> c \<and> c \<le> 0x200A) \<or> c = 0x2028 \<or> c = 0x2029 \<or>
     c = 0x202F \<or> c = 0x205F \<or> c = 0x3000 \<or> c = 0xFEFF"

text \<open>Matching a literal at the head of the input; the result is what follows it.\<close>

fun strip_prefix :: "'a list \<Rightarrow> 'a list \<Rightarrow> 'a list option" where
  "strip_prefix [] s = Some s"
| "strip_prefix (p # ps) [] = None"
| "strip_prefix (p # ps) (c # cs) = (if p = c then strip_prefix ps cs else None)"

text \<open>
  One attempt of the pattern \<^verbatim>\<open>{{\s*CONTENT\s*}}\<close> at the head of the input; the
  result is the input that follows the match. Each \<^verbatim>\<open>\s*\<close> is greedy, and giving
  white space back never helps: the character the pattern wants next (\<open>C\<close>, then
  \<open>}\<close>) is not white space. So the greedy run is the only candidate.
\<close>

definition match_token :: "jsstring \<Rightarrow> jsstring option" where
  "match_token s =
     (case strip_prefix (js ''{{'') s of
        None \<Rightarrow> None
      | Some r1 \<Rightarrow>
          (case strip_prefix (js ''CONTENT'') (dropWhile is_space r1) of
             None \<Rightarrow> None
           | Some r2 \<Rightarrow> strip_prefix (js ''}}'') (dropWhile is_space r2)))"

text \<open>
  ECMAScript's GetSubstitution for a pattern without capture groups: in the replacement
  text, \<^verbatim>\<open>$$\<close> stands for one dollar sign, \<^verbatim>\<open>$&\<close> for the matched text,
  \<^verbatim>\<open>$`\<close> for the subject before the match and \<^verbatim>\<open>$'\<close> for the subject after it.
  A dollar sign before anything else (a digit or \<^verbatim>\<open><\<close> included, since there is no
  group to refer to) is copied as it is.
\<close>

fun GetSubstitution :: "jsstring \<Rightarrow> jsstring \<Rightarrow> jsstring \<Rightarrow> jsstring \<Rightarrow> jsstring" where
  "GetSubstitution matched preceding following [] = []"
| "GetSubstitution matched preceding following [c] = [c]"
| "GetSubstitution matched preceding following (c # d # r) =
     (if c = 0x24 then
        (if d = 0x24 then 0x24 # GetSubstitution matched preceding following r
         else if d = 0x26 then matched @ GetSubstitution matched preceding following r
         else if d = 0x60 then preceding @ GetSubstitution matched preceding following r
         else if d = 0x27 then following @ GetSubstitution matched preceding following r
         else c # GetSubstitution matched preceding following (d # r))
      else c # GetSubstitution matched preceding following (d # r))"

lemma strip_prefix_length:
  "strip_prefix p s = Some r \<Longrightarrow> length s = length p + length r"
  by (induction p s rule: strip_prefix.induct) (auto split: if_splits)

lemma match_token_shorter:
  assumes "match_token s = Some r"
  shows "length r < length s"
proof -
  from assms obtain r1 r2 where
    a: "strip_prefix (js ''{{'') s = Some r1" and
    b: "strip_prefix (js ''CONTENT'') (dropWhile is_space r1) = Some r2" and
    c: "strip_prefix (js ''}}'') (dropWhile is_space r2) = Some r"
    by (auto simp: match_token_def split: option.splits)
  have "length (dropWhile is_space r1) \<le> length r1" "length (dropWhile is_space r2) \<le> length r2"
    by (simp_all add: length_dropWhile_le)
  with strip_prefix_length[OF a] strip_prefix_length[OF b] strip_prefix_length[OF c]
  show ?thesis by (simp add: js_def)
qed

text \<open>
  The global replacement loop. \<open>preceding\<close> is the part of the subject already scanned and
  the second argument the part still to scan, so the subject is \<open>preceding @ rest\<close>. At
  each position the pattern is tried; a match is replaced by its substitution and the scan
  resumes after it, a character that starts no match is copied. The pattern never
  matches the empty string, so the scan always advances.
\<close>

function regexp_replace :: "jsstring \<Rightarrow> jsstring \<Rightarrow> jsstring \<Rightarrow> jsstring" where
  "regexp_replace preceding [] replacement = []"
| "regexp_replace preceding (c # cs) replacement =
     (case match_token (c # cs) of
        None \<Rightarrow> c # regexp_replace (preceding @ [c]) cs replacement
      | Some following \<Rightarrow>
          (let matched = take (length (c # cs) - length following) (c # cs)
           in GetSubstitution matched preceding following replacement
              @ regexp_replace (preceding @ matched) following replacement))"
  by pat_completeness auto
termination
  by (relation "measure (\<lambda>(preceding, rest, replacement). length rest)")
     (auto dest: match_token_shorter)

definition render_userPrompt :: "jsstring \<Rightarrow> jsstring \<Rightarrow> jsstring" where
  "render_userPrompt userPromptTemplate content = regexp_replace [] userPromptTemplate content"

text \<open>
  The template as the scan reads it, for stating what the renderer does: the matches of
  the pattern, leftmost first and not overlapping, and the characters between them.
\<close>

datatype piece = Text jschar | Token jsstring

function pieces :: "jsstring \<Rightarrow> piece list" where
  "pieces [] = []"
| "pieces (c # cs) =
     (case match_token (c # cs) of
        None \<Rightarrow> Text c # pieces cs
      | Some following \<Rightarrow>
          Token (take (length (c # cs) - length following) (c # cs)) # pieces following)"
  by pat_completeness auto
termination
  by (relation "measure length") (auto dest: match_token_shorter)



fun is_Token :: "piece \<Rightarrow> bool" where
  "is_Token (Token m) = True"
| "is_Token (Text c) = False"

text \<open>The number of matches the global scan finds.\<close>

definition count_tokens :: "jsstring \<Rightarrow> nat" where
  "count_tokens s = length (filter is_Token (pieces s))"




section \<open>The world the program runs in\<close>

text \<open>
  The configuration after the destructuring of line 58 (defaults applied). Steps 1 to 3
  of \<open>main\<close> (the command line, the JSON file, the two prompt files) end the process with
  code 1 or deliver this record and the two prompts; the model starts where they are
  available, at step 4.
\<close>

record config =
  patterns :: "string list"
  ignore :: "string list"
  dryRun :: bool
  model :: string
  intervalMilis :: nat

text \<open>A chat completion request and the part of the response the program looks at.\<close>

record request =
  req_model :: string
  req_system :: jsstring
  req_user :: jsstring

text \<open>\<open>message_content\<close> is \<^verbatim>\<open>choice.message.content\<close>, a string or \<^verbatim>\<open>null\<close>.\<close>

record choice =
  message_content :: "jsstring option"

text \<open>\<open>choices\<close> is \<^verbatim>\<open>resp.choices\<close>: absent, or an array.\<close>

record response =
  choices :: "choice list option"

text \<open>
  What the program cannot change: the result of fast-glob for the patterns (an error
  message when it throws), the environment variable \<^verbatim>\<open>OPENAI_API_KEY\<close>, the completion
  service (the answer to the n-th request of the run; an error message when the call
  throws) and the paths at which \<^verbatim>\<open>fs.writeFile\<close> throws, with the message.
\<close>

record env =
  glob :: "string list \<Rightarrow> string list \<Rightarrow> string + path list"
  OPENAI_API_KEY :: "string option"
  service :: "nat \<Rightarrow> request \<Rightarrow> string + response"
  write_failure :: "path \<Rightarrow> string option"

text \<open>Everything the program does that can be observed, in order.\<close>

datatype event =
    Glob "string list" "string list"
  | ErrGlobbing string
  | LogNoFilesMatched
  | ErrApiKeyNotSet
  | LogFound nat bool
  | LogProcessing path
  | ReadFile path
  | ErrCouldNotRead path string
  | CreateCompletion request
  | ErrStatus path
  | ErrRequestFailed path string
  | ErrSkipping path
  | LogDryRunOutput jsstring
  | WriteFile path jsstring
  | LogOverwrote path
  | ErrFailedToWrite path string
  | SetTimeout nat
  | LogAllDone

text \<open>
  The state: what \<^verbatim>\<open>fs.readFile(p, "utf-8")\<close> yields for each path (the text, or an
  error message when it throws), the events so far and the number of requests sent.
\<close>

record world =
  files :: "path \<Rightarrow> string + jsstring"
  trace :: "event list"
  calls :: nat

definition emit :: "event \<Rightarrow> world \<Rightarrow> world" where
  "emit ev w = w\<lparr>trace := trace w @ [ev]\<rparr>"

section \<open>processFile (lines 113 to 146)\<close>

text \<open>
  The result is \<open>None\<close> where the source returns \<^verbatim>\<open>null\<close>: the read threw, the
  request threw, the response has no choice, or the first choice's content is
  \<^verbatim>\<open>null\<close>.
\<close>

definition processFile ::
  "env \<Rightarrow> config \<Rightarrow> jsstring \<Rightarrow> jsstring \<Rightarrow> path \<Rightarrow> world \<Rightarrow> world \<times> jsstring option" where
  "processFile e cfg systemPrompt userPromptTemplate filePath w =
     (let w1 = emit (ReadFile filePath) w in
      case files w1 filePath of
        Inl msg \<Rightarrow> (emit (ErrCouldNotRead filePath msg) w1, None)
      | Inr content \<Rightarrow>
          (let userPrompt = render_userPrompt userPromptTemplate content;
               req = \<lparr>req_model = model cfg, req_system = systemPrompt, req_user = userPrompt\<rparr>;
               w2 = (emit (CreateCompletion req) w1)\<lparr>calls := Suc (calls w1)\<rparr>
           in case service e (calls w1) req of
                Inl msg \<Rightarrow> (emit (ErrRequestFailed filePath msg) w2, None)
              | Inr resp \<Rightarrow>
                  (case choices resp of
                     None \<Rightarrow> (emit (ErrStatus filePath) w2, None)
                   | Some [] \<Rightarrow> (emit (ErrStatus filePath) w2, None)
                   | Some (ch # chs) \<Rightarrow> (w2, message_content ch))))"

section \<open>The loop over the matched files (lines 151 to 179)\<close>

text \<open>
  \<^verbatim>\<open>fs.writeFile\<close> either throws, and the file keeps its text, or replaces the whole
  text of the file.
\<close>

definition writeFile :: "env \<Rightarrow> path \<Rightarrow> jsstring \<Rightarrow> world \<Rightarrow> world" where
  "writeFile e filePath text w =
     (let w1 = emit (WriteFile filePath text) w in
      case write_failure e filePath of
        Some msg \<Rightarrow> emit (ErrFailedToWrite filePath msg) w1
      | None \<Rightarrow> emit (LogOverwrote filePath) (w1\<lparr>files := (files w1)(filePath := Inr text)\<rparr>))"

text \<open>
  One pass through the body of the \<^verbatim>\<open>for\<close> loop. The second component is
  \<open>Some code\<close> when the body called \<^verbatim>\<open>process.exit(code)\<close> and \<open>None\<close> when it
  came to its end or to \<^verbatim>\<open>continue\<close>, so that the loop goes on.
\<close>

definition loop_body ::
  "env \<Rightarrow> config \<Rightarrow> jsstring \<Rightarrow> jsstring \<Rightarrow> path \<Rightarrow> world \<Rightarrow> world \<times> nat option" where
  "loop_body e cfg systemPrompt userPromptTemplate filePath w =
     (case processFile e cfg systemPrompt userPromptTemplate filePath
             (emit (LogProcessing filePath) w) of
        (w1, None) \<Rightarrow>
          (let w2 = emit (ErrSkipping filePath) w1 in
           if dryRun cfg then (w2, Some 1) else (w2, None))
      | (w1, Some result) \<Rightarrow>
          if dryRun cfg then (emit (LogDryRunOutput result) w1, Some 0)
          else (emit (SetTimeout (intervalMilis cfg)) (writeFile e filePath result w1), None))"

fun main_loop ::
  "env \<Rightarrow> config \<Rightarrow> jsstring \<Rightarrow> jsstring \<Rightarrow> path list \<Rightarrow> world \<Rightarrow> world \<times> nat option" where
  "main_loop e cfg systemPrompt userPromptTemplate [] w = (w, None)"
| "main_loop e cfg systemPrompt userPromptTemplate (filePath # rest) w =
     (case loop_body e cfg systemPrompt userPromptTemplate filePath w of
        (w1, Some code) \<Rightarrow> (w1, Some code)
      | (w1, None) \<Rightarrow> main_loop e cfg systemPrompt userPromptTemplate rest w1)"

section \<open>main, from step 4 (lines 84 to 182)\<close>

text \<open>\<^verbatim>\<open>!apiKey\<close> holds for an unset variable and for the empty string.\<close>

definition no_apiKey :: "env \<Rightarrow> bool" where
  "no_apiKey e = (case OPENAI_API_KEY e of None \<Rightarrow> True | Some k \<Rightarrow> k = [])"

definition start :: "(path \<Rightarrow> string + jsstring) \<Rightarrow> world" where
  "start fs = \<lparr>files = fs, trace = [], calls = 0\<rparr>"

text \<open>
  The result is the final state and the exit code of the process; a run that reaches the
  end of \<open>main\<close> ends with code 0.
\<close>

definition main ::
  "env \<Rightarrow> config \<Rightarrow> jsstring \<Rightarrow> jsstring \<Rightarrow> (path \<Rightarrow> string + jsstring) \<Rightarrow> world \<times> nat" where
  "main e cfg systemPrompt userPromptTemplate fs =
     (let w0 = emit (Glob (patterns cfg) (ignore cfg)) (start fs) in
      case glob e (patterns cfg) (ignore cfg) of
        Inl msg \<Rightarrow> (emit (ErrGlobbing msg) w0, 1)
      | Inr entries \<Rightarrow>
          if entries = [] then (emit LogNoFilesMatched w0, 0)
          else if no_apiKey e then (emit ErrApiKeyNotSet w0, 1)
          else
            (case main_loop e cfg systemPrompt userPromptTemplate entries
                    (emit (LogFound (length entries) (dryRun cfg)) w0) of
               (w1, Some code) \<Rightarrow> (w1, code)
             | (w1, None) \<Rightarrow> (emit LogAllDone w1, 0)))"

section \<open>Reading a trace\<close>

fun is_request :: "event \<Rightarrow> bool" where
  "is_request (CreateCompletion r) = True"
| "is_request ev = False"

fun is_read :: "event \<Rightarrow> bool" where
  "is_read (ReadFile p) = True"
| "is_read ev = False"

fun is_write :: "event \<Rightarrow> bool" where
  "is_write (WriteFile p t) = True"
| "is_write ev = False"

fun is_delay :: "event \<Rightarrow> bool" where
  "is_delay (SetTimeout n) = True"
| "is_delay ev = False"

fun is_processing :: "event \<Rightarrow> bool" where
  "is_processing (LogProcessing p) = True"
| "is_processing ev = False"

text \<open>The request \<open>processFile\<close> sends for a file whose text is \<open>content\<close>.\<close>

definition the_request :: "config \<Rightarrow> jsstring \<Rightarrow> jsstring \<Rightarrow> jsstring \<Rightarrow> request" where
  "the_request cfg systemPrompt userPromptTemplate content =
     \<lparr>req_model = model cfg, req_system = systemPrompt,
      req_user = render_userPrompt userPromptTemplate content\<rparr>"

text \<open>
  The events that settle a file: it is reported as skipped, a write of a returned text is
  attempted, or (in a dry run, where one file only is attempted) the returned text is
  printed.
\<close>

fun outcome_of :: "path \<Rightarrow> event \<Rightarrow> bool" where
  "outcome_of p (ErrSkipping q) = (q = p)"
| "outcome_of p (WriteFile q t) = (q = p)"
| "outcome_of p (LogDryRunOutput t) = True"
| "outcome_of p ev = False"

text \<open>Every file reported as overwritten holds a text that was written to it.\<close>

definition committed :: "world \<Rightarrow> bool" where
  "committed w \<longleftrightarrow>
     (\<forall>p. LogOverwrote p \<in> set (trace w) \<longrightarrow>
          (\<exists>t. WriteFile p t \<in> set (trace w) \<and> files w p = Inr t))"

text \<open>The state in which the loop is entered: patterns resolved, files counted.\<close>

definition entered :: "config \<Rightarrow> path list \<Rightarrow> (path \<Rightarrow> string + jsstring) \<Rightarrow> world" where
  "entered cfg es fs =
     \<lparr>files = fs, trace = [Glob (patterns cfg) (ignore cfg), LogFound (length es) (dryRun cfg)], calls = 0\<rparr>"

section \<open>Concrete runs\<close>

text \<open>
  A configuration, a file system and services to run the model on: two source files, a
  service that answers every request with the prompt it received followed by \<open>2\<close>, and
  variations of them.
\<close>

definition demo_cfg :: config where
  "demo_cfg = \<lparr>patterns = [''src/*.js''], ignore = [], dryRun = False,
                model = ''gpt-4o-mini'', intervalMilis = 500\<rparr>"

definition demo_fs :: "path \<Rightarrow> string + jsstring" where
  "demo_fs p = (if p = ''/w/a.js'' then Inr (js ''A1'')
                else if p = ''/w/c.js'' then Inr (js ''C1'')
                else if p = ''/w/d.js'' then Inr (js ''D1'')
                else Inl ''ENOENT'')"

definition echo :: "nat \<Rightarrow> request \<Rightarrow> string + response" where
  "echo n req = Inr \<lparr>choices = Some [\<lparr>message_content = Some (req_user req @ js ''2'')\<rparr>]\<rparr>"

definition demo_env :: env where
  "demo_env = \<lparr>glob = (\<lambda>ps ig. Inr [''/w/a.js'', ''/w/d.js'']),
               OPENAI_API_KEY = Some ''sk-1'',
               service = echo,
               write_failure = (\<lambda>p. None)\<rparr>"

text \<open>
  Four matched files: the second cannot be read, the request for the third fails.
\<close>

definition skip_env :: env where
  "skip_env = demo_env
     \<lparr>glob := (\<lambda>ps ig. Inr [''/w/a.js'', ''/w/b.js'', ''/w/c.js'', ''/w/d.js'']),
      service := (\<lambda>n req. if n = 1 then Inl ''503'' else echo n req)\<rparr>"

lemmas demo_defs =
  demo_cfg_def demo_fs_def demo_env_def skip_env_def echo_def

lemmas run_defs =
  main_def start_def emit_def no_apiKey_def loop_body_def processFile_def writeFile_def
  render_userPrompt_def match_token_def is_space_def js_def Let_def

section \<open>Facts about the loop\<close>

lemma processFile_files: "files (fst (processFile e cfg sp tpl p w)) = files w"
  by (simp add: processFile_def emit_def Let_def split: sum.splits option.splits list.splits)

lemma main_loop_no_exit:
  "\<not> dryRun cfg \<Longrightarrow> snd (main_loop e cfg sp tpl es w) = None"
  by (induction es arbitrary: w) (simp_all add: loop_body_def Let_def split: prod.splits option.splits)

lemma main_loop_reads:
  "\<not> dryRun cfg \<Longrightarrow>
   filter is_read (trace (fst (main_loop e cfg sp tpl es w)))
     = filter is_read (trace w) @ map ReadFile es"
proof (induction es arbitrary: w)
  case Nil
  then show ?case by simp
next
  case (Cons p es)
  then show ?case
    by (simp add: loop_body_def processFile_def writeFile_def emit_def Let_def
          split: sum.splits option.splits list.splits)
qed

lemmas body_defs = loop_body_def processFile_def writeFile_def emit_def Let_def
lemmas body_splits = sum.splits option.splits list.splits

lemma loop_body_trace_mono:
  "set (trace w) \<subseteq> set (trace (fst (loop_body e cfg sp tpl p w)))"
  by (auto simp add: body_defs split: body_splits)

lemma main_loop_trace_mono:
  "set (trace w) \<subseteq> set (trace (fst (main_loop e cfg sp tpl es w)))"
proof (induction es arbitrary: w)
  case Nil
  then show ?case by simp
next
  case (Cons p es)
  obtain w1 x where b: "loop_body e cfg sp tpl p w = (w1, x)" by (cases "loop_body e cfg sp tpl p w")
  have "set (trace w) \<subseteq> set (trace w1)"
    using loop_body_trace_mono [of w e cfg sp tpl p] b by simp
  with Cons.IH [of w1] b show ?case by (cases x) auto
qed

lemma loop_body_delays:
  "length (filter is_delay (trace (fst (loop_body e cfg sp tpl p w)))) + length (filter is_write (trace w))
   = length (filter is_delay (trace w)) + length (filter is_write (trace (fst (loop_body e cfg sp tpl p w))))"
  by (simp add: body_defs split: body_splits)

lemma main_loop_delays:
  "length (filter is_delay (trace (fst (main_loop e cfg sp tpl es w)))) + length (filter is_write (trace w))
   = length (filter is_delay (trace w)) + length (filter is_write (trace (fst (main_loop e cfg sp tpl es w))))"
proof (induction es arbitrary: w)
  case Nil
  then show ?case by simp
next
  case (Cons p es)
  obtain w1 x where b: "loop_body e cfg sp tpl p w = (w1, x)" by (cases "loop_body e cfg sp tpl p w")
  with Cons.IH [of w1] loop_body_delays [of e cfg sp tpl p w] show ?case by (cases x) auto
qed

lemma loop_body_outcomes:
  "\<not> dryRun cfg \<Longrightarrow>
   length (filter (outcome_of p) (trace (fst (loop_body e cfg sp tpl q w))))
     = length (filter (outcome_of p) (trace w)) + (if q = p then 1 else 0)"
  by (simp add: body_defs split: body_splits)

lemma loop_body_continues: "\<not> dryRun cfg \<Longrightarrow> snd (loop_body e cfg sp tpl q w) = None"
  by (simp add: body_defs split: body_splits)

lemma main_loop_outcomes:
  "\<not> dryRun cfg \<Longrightarrow>
   length (filter (outcome_of p) (trace (fst (main_loop e cfg sp tpl es w))))
     = length (filter (outcome_of p) (trace w)) + count_list es p"
proof (induction es arbitrary: w)
  case Nil
  then show ?case by simp
next
  case (Cons q es)
  obtain w1 where b: "loop_body e cfg sp tpl q w = (w1, None)"
    using loop_body_continues [OF Cons.prems, of e sp tpl q w] by (cases "loop_body e cfg sp tpl q w") simp
  with Cons.IH [OF Cons.prems, of w1] loop_body_outcomes [OF Cons.prems, of p e sp tpl q w]
  show ?case by simp
qed

lemma loop_body_processing:
  "LogProcessing p \<in> set (trace (fst (loop_body e cfg sp tpl q w)))
     \<longleftrightarrow> LogProcessing p \<in> set (trace w) \<or> p = q"
  by (auto simp add: body_defs split: body_splits)

lemma main_loop_processing:
  "LogProcessing p \<in> set (trace (fst (main_loop e cfg sp tpl es w)))
     \<Longrightarrow> LogProcessing p \<in> set (trace w) \<or> p \<in> set es"
proof (induction es arbitrary: w)
  case Nil
  then show ?case by simp
next
  case (Cons q es)
  obtain w1 x where b: "loop_body e cfg sp tpl q w = (w1, x)" by (cases "loop_body e cfg sp tpl q w")
  with Cons.IH [of w1] Cons.prems loop_body_processing [of p e cfg sp tpl q w] show ?case by (cases x) auto
qed

lemma loop_body_untouched:
  "LogOverwrote p \<notin> set (trace (fst (loop_body e cfg sp tpl q w)))
     \<Longrightarrow> files (fst (loop_body e cfg sp tpl q w)) p = files w p"
  by (auto simp add: body_defs split: body_splits)

lemma main_loop_untouched:
  "LogOverwrote p \<notin> set (trace (fst (main_loop e cfg sp tpl es w)))
     \<Longrightarrow> files (fst (main_loop e cfg sp tpl es w)) p = files w p"
proof (induction es arbitrary: w)
  case Nil
  then show ?case by simp
next
  case (Cons q es)
  obtain w1 x where b: "loop_body e cfg sp tpl q w = (w1, x)" by (cases "loop_body e cfg sp tpl q w")
  show ?case
  proof (cases x)
    case None
    with b Cons.prems have n: "LogOverwrote p \<notin> set (trace (fst (main_loop e cfg sp tpl es w1)))" by simp
    with main_loop_trace_mono [of w1 e cfg sp tpl es] have "LogOverwrote p \<notin> set (trace w1)" by blast
    with loop_body_untouched [of p e cfg sp tpl q w] b have "files w1 p = files w p" by simp
    with Cons.IH [OF n] b None show ?thesis by simp
  next
    case (Some c)
    with b Cons.prems loop_body_untouched [of p e cfg sp tpl q w] show ?thesis by simp
  qed
qed

lemma loop_body_committed:
  "committed w \<Longrightarrow> committed (fst (loop_body e cfg sp tpl q w))"
  unfolding committed_def
  by (auto simp add: body_defs split: body_splits)

lemma main_loop_committed:
  "committed w \<Longrightarrow> committed (fst (main_loop e cfg sp tpl es w))"
proof (induction es arbitrary: w)
  case Nil
  then show ?case by simp
next
  case (Cons q es)
  obtain w1 x where b: "loop_body e cfg sp tpl q w = (w1, x)" by (cases "loop_body e cfg sp tpl q w")
  with Cons.IH [of w1] loop_body_committed [OF Cons.prems, of e cfg sp tpl q] show ?case by (cases x) auto
qed

lemma count_list_distinct: "distinct xs \<Longrightarrow> count_list xs x = (if x \<in> set xs then 1 else 0)"
  by (induction xs) auto

lemma two_in_filter:
  assumes "x \<in> set xs" "y \<in> set xs" "x \<noteq> y" "P x" "P y"
  shows "2 \<le> length (filter P xs)"
proof -
  have "{x, y} \<subseteq> set (filter P xs)" using assms by simp
  then have "card {x, y} \<le> card (set (filter P xs))" by (intro card_mono) simp_all
  also have "\<dots> \<le> length (filter P xs)" by (rule card_length)
  finally show ?thesis using assms(3) by simp
qed

lemma loop_body_own_outcome:
  "length (filter (outcome_of p) (trace (fst (loop_body e cfg sp tpl p w))))
     = Suc (length (filter (outcome_of p) (trace w)))"
  by (simp add: body_defs split: body_splits)

lemma loop_body_dry:
  "dryRun cfg \<Longrightarrow> snd (loop_body e cfg sp tpl p w) \<noteq> None \<and>
     files (fst (loop_body e cfg sp tpl p w)) = files w \<and>
     (LogOverwrote q \<in> set (trace (fst (loop_body e cfg sp tpl p w))) \<longleftrightarrow> LogOverwrote q \<in> set (trace w))"
  by (auto simp add: body_defs split: body_splits)

lemma main_loop_dry:
  "dryRun cfg \<Longrightarrow> main_loop e cfg sp tpl (p # ps) w = loop_body e cfg sp tpl p w"
proof -
  assume "dryRun cfg"
  then obtain c where "snd (loop_body e cfg sp tpl p w) = Some c"
    using loop_body_dry [of cfg e sp tpl p w] by auto
  then show ?thesis by (cases "loop_body e cfg sp tpl p w") simp
qed

lemma main_entered:
  assumes "glob e (patterns cfg) (ignore cfg) = Inr es" "es \<noteq> []" "\<not> no_apiKey e"
  shows "main e cfg sp tpl fs =
     (case main_loop e cfg sp tpl es (entered cfg es fs) of
        (w1, Some code) \<Rightarrow> (w1, code)
      | (w1, None) \<Rightarrow> (emit LogAllDone w1, 0))"
proof -
  have "emit (LogFound (length es) (dryRun cfg)) (emit (Glob (patterns cfg) (ignore cfg)) (start fs))
          = entered cfg es fs"
    by (simp add: entered_def emit_def start_def)
  with assms show ?thesis by (simp add: main_def Let_def)
qed

lemma main_not_entered:
  assumes "glob e (patterns cfg) (ignore cfg) = Inr es" "es = [] \<or> no_apiKey e"
  shows "files (fst (main e cfg sp tpl fs)) = fs \<and>
     (trace (fst (main e cfg sp tpl fs)) = [Glob (patterns cfg) (ignore cfg), LogNoFilesMatched] \<or>
      trace (fst (main e cfg sp tpl fs)) = [Glob (patterns cfg) (ignore cfg), ErrApiKeyNotSet])"
  using assms by (auto simp add: main_def emit_def start_def Let_def)


lemma loop_body_writes_answered:
  assumes "WriteFile q t \<in> set (trace (fst (loop_body e cfg sp tpl p w)))"
  shows "WriteFile q t \<in> set (trace w) \<or>
     (\<exists>n r resp ch chs. CreateCompletion r \<in> set (trace (fst (loop_body e cfg sp tpl p w))) \<and>
        service e n r = Inr resp \<and> choices resp = Some (ch # chs) \<and> message_content ch = Some t)"
proof (cases "files w p")
  case (Inl msg)
  with assms show ?thesis by (auto simp add: body_defs split: if_splits)
next
  case (Inr c)
  let ?r = "\<lparr>req_model = model cfg, req_system = sp, req_user = render_userPrompt tpl c\<rparr>"
  show ?thesis
  proof (cases "service e (calls w) ?r")
    case (Inl msg)
    with Inr assms show ?thesis by (auto simp add: body_defs split: if_splits)
  next
    case resp: (Inr resp)
    show ?thesis
    proof (cases "choices resp")
      case None
      with Inr resp assms show ?thesis by (auto simp add: body_defs split: if_splits)
    next
      case (Some chs)
      show ?thesis
      proof (cases chs)
        case Nil
        with Some Inr resp assms show ?thesis by (auto simp add: body_defs split: if_splits)
      next
        case (Cons ch chs')
        show ?thesis
        proof (cases "message_content ch")
          case None
          with Cons Some Inr resp assms show ?thesis by (auto simp add: body_defs split: if_splits)
        next
          case str: (Some t')
          have req: "CreateCompletion ?r \<in> set (trace (fst (loop_body e cfg sp tpl p w)))"
            using str Cons Some Inr resp by (simp add: body_defs split: option.splits)
          from assms str Cons Some Inr resp have "WriteFile q t \<in> set (trace w) \<or> t = t'"
            by (auto simp add: body_defs split: option.splits if_splits)
          with req resp Some Cons str show ?thesis by blast
        qed
      qed
    qed
  qed
qed

lemma main_loop_writes_answered:
  "WriteFile q t \<in> set (trace (fst (main_loop e cfg sp tpl es w))) \<Longrightarrow>
   WriteFile q t \<in> set (trace w) \<or>
     (\<exists>n r resp ch chs. CreateCompletion r \<in> set (trace (fst (main_loop e cfg sp tpl es w))) \<and>
        service e n r = Inr resp \<and> choices resp = Some (ch # chs) \<and> message_content ch = Some t)"
proof (induction es arbitrary: w)
  case Nil
  then show ?case by simp
next
  case (Cons p es)
  obtain w1 x where b: "loop_body e cfg sp tpl p w = (w1, x)" by (cases "loop_body e cfg sp tpl p w")
  show ?case
  proof (cases x)
    case None
    with b have eq: "main_loop e cfg sp tpl (p # es) w = main_loop e cfg sp tpl es w1" by simp
    from Cons.prems have "WriteFile q t \<in> set (trace (fst (main_loop e cfg sp tpl es w1)))"
      unfolding eq .
    from Cons.IH [OF this]
    show ?thesis
    proof (elim disjE)
      assume "WriteFile q t \<in> set (trace w1)"
      with loop_body_writes_answered [of q t e cfg sp tpl p w] b
      have "WriteFile q t \<in> set (trace w) \<or>
        (\<exists>n r resp ch chs. CreateCompletion r \<in> set (trace w1) \<and>
          service e n r = Inr resp \<and> choices resp = Some (ch # chs) \<and> message_content ch = Some t)"
        by simp
      with main_loop_trace_mono [of w1 e cfg sp tpl es] show ?thesis
        unfolding eq by blast
    next
      assume "\<exists>n r resp ch chs. CreateCompletion r \<in> set (trace (fst (main_loop e cfg sp tpl es w1))) \<and>
          service e n r = Inr resp \<and> choices resp = Some (ch # chs) \<and> message_content ch = Some t"
      then show ?thesis unfolding eq by blast
    qed
  next
    case (Some c)
    with b loop_body_writes_answered [of q t e cfg sp tpl p w] Cons.prems show ?thesis by simp
  qed
qed


section \<open>An empty match set\<close>

text \<open>
  C7: when the patterns match no file, the run ends with exit code 0 and sends no
  completion request; it prints that nothing matched and reads and writes no file.
\<close>

theorem zero_match_short_circuit:
  "glob e (patterns cfg) (ignore cfg) = Inr [] \<Longrightarrow>
   snd (main e cfg sp tpl fs) = 0 \<and>
   filter is_request (trace (fst (main e cfg sp tpl fs))) = [] \<and>
   trace (fst (main e cfg sp tpl fs)) = [Glob (patterns cfg) (ignore cfg), LogNoFilesMatched] \<and>
   files (fst (main e cfg sp tpl fs)) = fs"
  by (simp add: main_def emit_def start_def)

theorem zero_match_short_circuit_witness:
  "glob (demo_env\<lparr>glob := (\<lambda>ps ig. Inr [])\<rparr>) (patterns demo_cfg) (ignore demo_cfg) = Inr [] \<and>
   snd (main (demo_env\<lparr>glob := (\<lambda>ps ig. Inr [])\<rparr>) demo_cfg (js ''sys'') (js ''{{CONTENT}}'') demo_fs) = 0 \<and>
   filter is_request (trace (fst (main (demo_env\<lparr>glob := (\<lambda>ps ig. Inr [])\<rparr>) demo_cfg
      (js ''sys'') (js ''{{CONTENT}}'') demo_fs))) = []"
proof -
  have h: "glob (demo_env\<lparr>glob := (\<lambda>ps ig. Inr [])\<rparr>) (patterns demo_cfg) (ignore demo_cfg) = Inr []"
    by simp
  show ?thesis
    using h zero_match_short_circuit [OF h, of "js ''sys''" "js ''{{CONTENT}}''" demo_fs]
    by simp
qed

section \<open>Skipped files do not stop a normal run\<close>

text \<open>
  C5: in a run that is not a dry run, every matched file is attempted, in order, whatever
  happened to the files before it (a failed read or a failed request skips that file
  only), and the run ends with exit code 0 after printing that all is done.
\<close>

theorem skip_does_not_halt:
  assumes "\<not> dryRun cfg"
    and "glob e (patterns cfg) (ignore cfg) = Inr es"
    and "es \<noteq> []"
    and "\<not> no_apiKey e"
  shows "snd (main e cfg sp tpl fs) = 0 \<and>
         filter is_read (trace (fst (main e cfg sp tpl fs))) = map ReadFile es \<and>
         last (trace (fst (main e cfg sp tpl fs))) = LogAllDone"
proof -
  let ?w = "emit (LogFound (length es) (dryRun cfg)) (emit (Glob (patterns cfg) (ignore cfg)) (start fs))"
  obtain w1 where loop: "main_loop e cfg sp tpl es ?w = (w1, None)"
    using main_loop_no_exit [OF assms(1), of e sp tpl es ?w] by (cases "main_loop e cfg sp tpl es ?w") simp
  have m: "main e cfg sp tpl fs = (emit LogAllDone w1, 0)"
    using assms loop by (simp add: main_def Let_def)
  have "filter is_read (trace w1) = filter is_read (trace ?w) @ map ReadFile es"
    using main_loop_reads [OF assms(1), of e sp tpl es ?w] loop by simp
  then have "filter is_read (trace w1) = map ReadFile es"
    by (simp add: emit_def start_def)
  with m show ?thesis by (simp add: emit_def)
qed

theorem skip_does_not_halt_witness:
  "\<not> dryRun demo_cfg \<and> \<not> no_apiKey skip_env \<and>
   glob skip_env (patterns demo_cfg) (ignore demo_cfg)
     = Inr [''/w/a.js'', ''/w/b.js'', ''/w/c.js'', ''/w/d.js''] \<and>
   snd (main skip_env demo_cfg (js ''sys'') (js ''{{CONTENT}}'') demo_fs) = 0 \<and>
   filter is_read (trace (fst (main skip_env demo_cfg (js ''sys'') (js ''{{CONTENT}}'') demo_fs)))
     = [ReadFile ''/w/a.js'', ReadFile ''/w/b.js'', ReadFile ''/w/c.js'', ReadFile ''/w/d.js''] \<and>
   ErrSkipping ''/w/b.js'' \<in> set (trace (fst (main skip_env demo_cfg (js ''sys'') (js ''{{CONTENT}}'') demo_fs))) \<and>
   ErrSkipping ''/w/c.js'' \<in> set (trace (fst (main skip_env demo_cfg (js ''sys'') (js ''{{CONTENT}}'') demo_fs)))"
proof -
  have h1: "\<not> dryRun demo_cfg" by (simp add: demo_defs)
  have h2: "glob skip_env (patterns demo_cfg) (ignore demo_cfg)
              = Inr [''/w/a.js'', ''/w/b.js'', ''/w/c.js'', ''/w/d.js'']"
    by (simp add: demo_defs)
  have h3: "[''/w/a.js'', ''/w/b.js'', ''/w/c.js'', ''/w/d.js''] \<noteq> []" by simp
  have h4: "\<not> no_apiKey skip_env" by (simp add: demo_defs no_apiKey_def)
  have tr: "trace (fst (main skip_env demo_cfg (js ''sys'') (js ''{{CONTENT}}'') demo_fs)) =
    [Glob [''src/*.js''] [], LogFound 4 False,
     LogProcessing ''/w/a.js'', ReadFile ''/w/a.js'',
     CreateCompletion \<lparr>req_model = ''gpt-4o-mini'', req_system = js ''sys'', req_user = js ''A1''\<rparr>,
     WriteFile ''/w/a.js'' (js ''A12''), LogOverwrote ''/w/a.js'', SetTimeout 500,
     LogProcessing ''/w/b.js'', ReadFile ''/w/b.js'', ErrCouldNotRead ''/w/b.js'' ''ENOENT'',
     ErrSkipping ''/w/b.js'',
     LogProcessing ''/w/c.js'', ReadFile ''/w/c.js'',
     CreateCompletion \<lparr>req_model = ''gpt-4o-mini'', req_system = js ''sys'', req_user = js ''C1''\<rparr>,
     ErrRequestFailed ''/w/c.js'' ''503'', ErrSkipping ''/w/c.js'',
     LogProcessing ''/w/d.js'', ReadFile ''/w/d.js'',
     CreateCompletion \<lparr>req_model = ''gpt-4o-mini'', req_system = js ''sys'', req_user = js ''D1''\<rparr>,
     WriteFile ''/w/d.js'' (js ''D12''), LogOverwrote ''/w/d.js'', SetTimeout 500, LogAllDone]"
    by (simp add: run_defs demo_defs)
  show ?thesis
    using h1 h2 h4 skip_does_not_halt [OF h1 h2 h3 h4, of "js ''sys''" "js ''{{CONTENT}}''" demo_fs]
    by (simp add: tr)
qed

section \<open>A missing credential\<close>

text \<open>
  C2, as the code has it: the credential is looked up after the patterns have been
  resolved and after the check for an empty match set. A run without the credential sends
  no request, reads and writes no file, and its first action is the pattern resolution;
  it ends with code 1 when resolution failed or matched a file, and with code 0 when
  nothing matched.
\<close>

theorem missing_credential:
  assumes "no_apiKey e"
  shows "filter is_request (trace (fst (main e cfg sp tpl fs))) = [] \<and>
         filter is_read (trace (fst (main e cfg sp tpl fs))) = [] \<and>
         filter is_write (trace (fst (main e cfg sp tpl fs))) = [] \<and>
         files (fst (main e cfg sp tpl fs)) = fs \<and>
         hd (trace (fst (main e cfg sp tpl fs))) = Glob (patterns cfg) (ignore cfg) \<and>
         snd (main e cfg sp tpl fs) =
           (case glob e (patterns cfg) (ignore cfg) of
              Inl msg \<Rightarrow> 1
            | Inr entries \<Rightarrow> if entries = [] then 0 else 1)"
  using assms by (simp add: main_def emit_def start_def Let_def split: sum.splits)

theorem missing_credential_witness:
  "no_apiKey (demo_env\<lparr>OPENAI_API_KEY := None\<rparr>) \<and>
   snd (main (demo_env\<lparr>OPENAI_API_KEY := None\<rparr>) demo_cfg (js ''sys'') (js ''{{CONTENT}}'') demo_fs) = 1 \<and>
   filter is_request (trace (fst (main (demo_env\<lparr>OPENAI_API_KEY := None\<rparr>) demo_cfg
      (js ''sys'') (js ''{{CONTENT}}'') demo_fs))) = [] \<and>
   hd (trace (fst (main (demo_env\<lparr>OPENAI_API_KEY := None\<rparr>) demo_cfg
      (js ''sys'') (js ''{{CONTENT}}'') demo_fs))) = Glob [''src/*.js''] []"
proof -
  have h: "no_apiKey (demo_env\<lparr>OPENAI_API_KEY := None\<rparr>)"
    by (simp add: no_apiKey_def)
  show ?thesis
    using h missing_credential [OF h, of demo_cfg "js ''sys''" "js ''{{CONTENT}}''" demo_fs]
    by (simp add: demo_defs)
qed

text \<open>
  The claim as the specification has it fails: without the credential and with patterns
  that match nothing, the patterns are resolved and the run ends with code 0.
\<close>

theorem missing_credential_counterexample:
  "no_apiKey (demo_env\<lparr>OPENAI_API_KEY := None, glob := (\<lambda>ps ig. Inr [])\<rparr>) \<and>
   main (demo_env\<lparr>OPENAI_API_KEY := None, glob := (\<lambda>ps ig. Inr [])\<rparr>) demo_cfg
        (js ''sys'') (js ''{{CONTENT}}'') demo_fs
     = (\<lparr>files = demo_fs, trace = [Glob [''src/*.js''] [], LogNoFilesMatched], calls = 0\<rparr>, 0)"
  by (simp add: run_defs demo_defs)

section \<open>Dry runs\<close>

text \<open>
  C3, as the code has it: a dry run with the credential set and at least one matched
  file attempts the first file only: it reads that file and no other, sends at most one request, writes
  nothing and leaves every file as it was. When the read succeeds and the service
  answers with a first choice whose content is a string, the run prints that string and
  ends with code 0; the trace below is the whole run.
\<close>

theorem dry_run_single_file:
  assumes "dryRun cfg"
    and "glob e (patterns cfg) (ignore cfg) = Inr (p # ps)"
    and "\<not> no_apiKey e"
  shows "filter is_read (trace (fst (main e cfg sp tpl fs))) = [ReadFile p] \<and>
         filter is_processing (trace (fst (main e cfg sp tpl fs))) = [LogProcessing p] \<and>
         length (filter is_request (trace (fst (main e cfg sp tpl fs)))) \<le> 1 \<and>
         filter is_write (trace (fst (main e cfg sp tpl fs))) = [] \<and>
         files (fst (main e cfg sp tpl fs)) = fs \<and>
         (\<forall>c resp ch chs t.
            fs p = Inr c \<and> service e 0 (the_request cfg sp tpl c) = Inr resp \<and>
            choices resp = Some (ch # chs) \<and> message_content ch = Some t \<longrightarrow>
            snd (main e cfg sp tpl fs) = 0 \<and>
            trace (fst (main e cfg sp tpl fs)) =
              [Glob (patterns cfg) (ignore cfg), LogFound (Suc (length ps)) True,
               LogProcessing p, ReadFile p, CreateCompletion (the_request cfg sp tpl c),
               LogDryRunOutput t])"
  using assms
  by (simp add: main_def emit_def start_def Let_def loop_body_def processFile_def the_request_def
        split: sum.splits option.splits list.splits)

theorem dry_run_single_file_witness:
  "dryRun (demo_cfg\<lparr>dryRun := True\<rparr>) \<and> \<not> no_apiKey demo_env \<and>
   glob demo_env (patterns (demo_cfg\<lparr>dryRun := True\<rparr>)) (ignore (demo_cfg\<lparr>dryRun := True\<rparr>))
     = Inr [''/w/a.js'', ''/w/d.js''] \<and>
   filter is_read (trace (fst (main demo_env (demo_cfg\<lparr>dryRun := True\<rparr>)
      (js ''sys'') (js ''{{CONTENT}}'') demo_fs))) = [ReadFile ''/w/a.js''] \<and>
   main demo_env (demo_cfg\<lparr>dryRun := True\<rparr>) (js ''sys'') (js ''{{CONTENT}}'') demo_fs =
     (\<lparr>files = demo_fs,
       trace = [Glob [''src/*.js''] [], LogFound 2 True, LogProcessing ''/w/a.js'',
                ReadFile ''/w/a.js'',
                CreateCompletion \<lparr>req_model = ''gpt-4o-mini'', req_system = js ''sys'',
                                  req_user = js ''A1''\<rparr>,
                LogDryRunOutput (js ''A12'')],
       calls = 1\<rparr>, 0)"
proof -
  have h1: "dryRun (demo_cfg\<lparr>dryRun := True\<rparr>)" by simp
  have h2: "glob demo_env (patterns (demo_cfg\<lparr>dryRun := True\<rparr>)) (ignore (demo_cfg\<lparr>dryRun := True\<rparr>))
              = Inr [''/w/a.js'', ''/w/d.js'']"
    by (simp add: demo_defs)
  have h3: "\<not> no_apiKey demo_env" by (simp add: demo_defs no_apiKey_def)
  have run: "main demo_env (demo_cfg\<lparr>dryRun := True\<rparr>) (js ''sys'') (js ''{{CONTENT}}'') demo_fs =
     (\<lparr>files = demo_fs,
       trace = [Glob [''src/*.js''] [], LogFound 2 True, LogProcessing ''/w/a.js'',
                ReadFile ''/w/a.js'',
                CreateCompletion \<lparr>req_model = ''gpt-4o-mini'', req_system = js ''sys'',
                                  req_user = js ''A1''\<rparr>,
                LogDryRunOutput (js ''A12'')],
       calls = 1\<rparr>, 0)"
    by (simp add: run_defs demo_defs)
  show ?thesis
    using h1 h2 h3 run
      dry_run_single_file [OF h1 h2 h3, of "js ''sys''" "js ''{{CONTENT}}''" demo_fs]
    by simp
qed

text \<open>
  The claim as the specification has it, for every dry run with a matched file, fails
  when the credential is not set: the run ends with code 1 after the patterns were
  resolved, and reads no file at all.
\<close>

theorem dry_run_single_file_counterexample:
  "dryRun (demo_cfg\<lparr>dryRun := True\<rparr>) \<and>
   glob (demo_env\<lparr>OPENAI_API_KEY := None\<rparr>) (patterns (demo_cfg\<lparr>dryRun := True\<rparr>))
        (ignore (demo_cfg\<lparr>dryRun := True\<rparr>))
     = Inr [''/w/a.js'', ''/w/d.js''] \<and>
   main (demo_env\<lparr>OPENAI_API_KEY := None\<rparr>) (demo_cfg\<lparr>dryRun := True\<rparr>)
        (js ''sys'') (js ''{{CONTENT}}'') demo_fs
     = (\<lparr>files = demo_fs, trace = [Glob [''src/*.js''] [], ErrApiKeyNotSet], calls = 0\<rparr>, 1) \<and>
   filter is_read (trace (fst (main (demo_env\<lparr>OPENAI_API_KEY := None\<rparr>)
      (demo_cfg\<lparr>dryRun := True\<rparr>) (js ''sys'') (js ''{{CONTENT}}'') demo_fs))) = []"
  by (simp add: run_defs demo_defs)

text \<open>
  C6: in a dry run, when the first file cannot be read, or its request fails, or the
  response has no choice, the run ends with code 1 right after reporting the file as
  skipped; no later file is attempted and nothing is written.
\<close>

theorem dry_run_failure_aborts:
  assumes "dryRun cfg"
    and "glob e (patterns cfg) (ignore cfg) = Inr (p # ps)"
    and "\<not> no_apiKey e"
    and "(\<exists>msg. fs p = Inl msg) \<or>
         (\<exists>c. fs p = Inr c \<and>
            (case service e 0 (the_request cfg sp tpl c) of
               Inl msg \<Rightarrow> True
             | Inr resp \<Rightarrow> choices resp = None \<or> choices resp = Some []))"
  shows "snd (main e cfg sp tpl fs) = 1 \<and>
         last (trace (fst (main e cfg sp tpl fs))) = ErrSkipping p \<and>
         filter is_read (trace (fst (main e cfg sp tpl fs))) = [ReadFile p] \<and>
         filter is_processing (trace (fst (main e cfg sp tpl fs))) = [LogProcessing p] \<and>
         filter is_write (trace (fst (main e cfg sp tpl fs))) = [] \<and>
         files (fst (main e cfg sp tpl fs)) = fs"
proof -
  from assms(4) consider
      (read) msg where "fs p = Inl msg"
    | (request) c msg where "fs p = Inr c" "service e 0 (the_request cfg sp tpl c) = Inl msg"
    | (absent) c resp where "fs p = Inr c" "service e 0 (the_request cfg sp tpl c) = Inr resp"
        "choices resp = None"
    | (empty) c resp where "fs p = Inr c" "service e 0 (the_request cfg sp tpl c) = Inr resp"
        "choices resp = Some []"
    by (cases "fs p") (auto split: sum.splits)
  then show ?thesis
  proof cases
    case read
    with assms(1-3) show ?thesis
      by (simp add: main_def emit_def start_def Let_def loop_body_def processFile_def)
  next
    case request
    with assms(1-3) show ?thesis
      by (simp add: main_def emit_def start_def Let_def loop_body_def processFile_def the_request_def)
  next
    case absent
    with assms(1-3) show ?thesis
      by (simp add: main_def emit_def start_def Let_def loop_body_def processFile_def the_request_def)
  next
    case empty
    with assms(1-3) show ?thesis
      by (simp add: main_def emit_def start_def Let_def loop_body_def processFile_def the_request_def)
  qed
qed

theorem dry_run_failure_aborts_witness:
  "dryRun (demo_cfg\<lparr>dryRun := True\<rparr>) \<and>
   \<not> no_apiKey (skip_env\<lparr>glob := (\<lambda>ps ig. Inr [''/w/b.js'', ''/w/a.js''])\<rparr>) \<and>
   demo_fs ''/w/b.js'' = Inl ''ENOENT'' \<and>
   main (skip_env\<lparr>glob := (\<lambda>ps ig. Inr [''/w/b.js'', ''/w/a.js''])\<rparr>) (demo_cfg\<lparr>dryRun := True\<rparr>)
        (js ''sys'') (js ''{{CONTENT}}'') demo_fs =
     (\<lparr>files = demo_fs,
       trace = [Glob [''src/*.js''] [], LogFound 2 True, LogProcessing ''/w/b.js'',
                ReadFile ''/w/b.js'', ErrCouldNotRead ''/w/b.js'' ''ENOENT'',
                ErrSkipping ''/w/b.js''],
       calls = 0\<rparr>, 1)"
proof -
  let ?e = "skip_env\<lparr>glob := (\<lambda>ps ig. Inr [''/w/b.js'', ''/w/a.js''])\<rparr>"
  let ?cfg = "demo_cfg\<lparr>dryRun := True\<rparr>"
  have h1: "dryRun ?cfg" by simp
  have h2: "glob ?e (patterns ?cfg) (ignore ?cfg) = Inr [''/w/b.js'', ''/w/a.js'']" by simp
  have h3: "\<not> no_apiKey ?e" by (simp add: demo_defs no_apiKey_def)
  have h4: "(\<exists>msg. demo_fs ''/w/b.js'' = Inl msg) \<or>
         (\<exists>c. demo_fs ''/w/b.js'' = Inr c \<and>
            (case service ?e 0 (the_request ?cfg (js ''sys'') (js ''{{CONTENT}}'') c) of
               Inl msg \<Rightarrow> True
             | Inr resp \<Rightarrow> choices resp = None \<or> choices resp = Some []))"
    by (simp add: demo_fs_def)
  have run: "main ?e ?cfg (js ''sys'') (js ''{{CONTENT}}'') demo_fs =
     (\<lparr>files = demo_fs,
       trace = [Glob [''src/*.js''] [], LogFound 2 True, LogProcessing ''/w/b.js'',
                ReadFile ''/w/b.js'', ErrCouldNotRead ''/w/b.js'' ''ENOENT'',
                ErrSkipping ''/w/b.js''],
       calls = 0\<rparr>, 1)"
    by (simp add: run_defs demo_defs)
  show ?thesis
    using h1 h3 run
      dry_run_failure_aborts [where fs = demo_fs and p = "''/w/b.js''" and ps = "[''/w/a.js'']"
        and sp = "js ''sys''" and tpl = "js ''{{CONTENT}}''", OF h1 h2 h3 h4]
    by (simp add: demo_fs_def)
qed

section \<open>Pacing\<close>

text \<open>
  C1: a run of two files whose transforms and writes all succeed. The delay of
  \<open>intervalMilis\<close> is taken after each of the two files: the second one follows the last
  file's commit, where the comment of line 177 and the specification want none.
\<close>

theorem pacing_after_last_file:
  "main demo_env demo_cfg (js ''sys'') (js ''{{CONTENT}}'') demo_fs =
    (\<lparr>files = demo_fs(''/w/a.js'' := Inr (js ''A12''), ''/w/d.js'' := Inr (js ''D12'')),
      trace =
       [Glob [''src/*.js''] [], LogFound 2 False,
        LogProcessing ''/w/a.js'', ReadFile ''/w/a.js'',
        CreateCompletion \<lparr>req_model = ''gpt-4o-mini'', req_system = js ''sys'', req_user = js ''A1''\<rparr>,
        WriteFile ''/w/a.js'' (js ''A12''), LogOverwrote ''/w/a.js'', SetTimeout 500,
        LogProcessing ''/w/d.js'', ReadFile ''/w/d.js'',
        CreateCompletion \<lparr>req_model = ''gpt-4o-mini'', req_system = js ''sys'', req_user = js ''D1''\<rparr>,
        WriteFile ''/w/d.js'' (js ''D12''), LogOverwrote ''/w/d.js'', SetTimeout 500,
        LogAllDone],
      calls = 2\<rparr>, 0) \<and>
   length (filter is_delay (trace (fst (main demo_env demo_cfg (js ''sys'') (js ''{{CONTENT}}'') demo_fs)))) = 2"
  by (simp add: run_defs demo_defs)

text \<open>
  In general, every run waits once for each write it attempts, the last one included.
\<close>

lemma delays_equal_writes:
  "length (filter is_delay (trace (fst (main e cfg sp tpl fs))))
     = length (filter is_write (trace (fst (main e cfg sp tpl fs))))"
proof (cases "glob e (patterns cfg) (ignore cfg)")
  case (Inl msg)
  then show ?thesis by (simp add: main_def Let_def emit_def start_def)
next
  case (Inr es)
  show ?thesis
  proof (cases "es = [] \<or> no_apiKey e")
    case True
    from main_not_entered [where sp = sp and tpl = tpl and fs = fs, OF Inr True]
    show ?thesis by auto
  next
    case False
    obtain w1 x where loop: "main_loop e cfg sp tpl es (entered cfg es fs) = (w1, x)"
      by (cases "main_loop e cfg sp tpl es (entered cfg es fs)")
    have m: "main e cfg sp tpl fs = (case x of Some code \<Rightarrow> (w1, code) | None \<Rightarrow> (emit LogAllDone w1, 0))"
      using main_entered [where sp = sp and tpl = tpl and fs = fs, OF Inr] False loop by simp
    from main_loop_delays [of e cfg sp tpl es "entered cfg es fs"] loop
    have "length (filter is_delay (trace w1)) = length (filter is_write (trace w1))"
      by (simp add: entered_def)
    with m show ?thesis by (cases x) (simp_all add: emit_def)
  qed
qed

section \<open>Committing a transform\<close>

text \<open>
  C8: in a run that is not a dry run, when a file is read and the service answers with a
  first choice whose content is the string \<open>t\<close>, the loop writes \<open>t\<close> to the file's own
  path: the file then holds exactly \<open>t\<close>, and the overwrite is reported. When the write
  fails the error is reported and the file keeps its text. In both cases the loop waits
  and goes on with the remaining files from that state; it never ends the process, and
  every remaining file is read.
\<close>

theorem overwrite_and_continue:
  assumes "\<not> dryRun cfg"
    and "files w p = Inr c"
    and "service e (calls w) (the_request cfg sp tpl c) = Inr resp"
    and "choices resp = Some (ch # chs)"
    and "message_content ch = Some t"
  shows "main_loop e cfg sp tpl (p # ps) w =
           main_loop e cfg sp tpl ps
             \<lparr>files = (case write_failure e p of None \<Rightarrow> (files w)(p := Inr t) | Some msg \<Rightarrow> files w),
              trace = trace w @
                  [LogProcessing p, ReadFile p, CreateCompletion (the_request cfg sp tpl c),
                   WriteFile p t,
                   (case write_failure e p of None \<Rightarrow> LogOverwrote p | Some msg \<Rightarrow> ErrFailedToWrite p msg),
                   SetTimeout (intervalMilis cfg)],
              calls = Suc (calls w)\<rparr> \<and>
         snd (main_loop e cfg sp tpl (p # ps) w) = None \<and>
         filter is_read (trace (fst (main_loop e cfg sp tpl (p # ps) w)))
           = filter is_read (trace w) @ map ReadFile (p # ps)"
  using assms main_loop_no_exit [OF assms(1), of e sp tpl "p # ps" w]
    main_loop_reads [OF assms(1), of e sp tpl "p # ps" w]
  by (cases w) (simp add: body_defs the_request_def split: option.splits)

theorem overwrite_and_continue_witness:
  "\<not> dryRun demo_cfg \<and> files (start demo_fs) ''/w/a.js'' = Inr (js ''A1'') \<and>
   main_loop (demo_env\<lparr>write_failure := (\<lambda>p. if p = ''/w/a.js'' then Some ''EACCES'' else None)\<rparr>)
      demo_cfg (js ''sys'') (js ''{{CONTENT}}'') [''/w/a.js'', ''/w/d.js''] (start demo_fs) =
     (\<lparr>files = demo_fs(''/w/d.js'' := Inr (js ''D12'')),
       trace =
        [LogProcessing ''/w/a.js'', ReadFile ''/w/a.js'',
         CreateCompletion \<lparr>req_model = ''gpt-4o-mini'', req_system = js ''sys'', req_user = js ''A1''\<rparr>,
         WriteFile ''/w/a.js'' (js ''A12''), ErrFailedToWrite ''/w/a.js'' ''EACCES'', SetTimeout 500,
         LogProcessing ''/w/d.js'', ReadFile ''/w/d.js'',
         CreateCompletion \<lparr>req_model = ''gpt-4o-mini'', req_system = js ''sys'', req_user = js ''D1''\<rparr>,
         WriteFile ''/w/d.js'' (js ''D12''), LogOverwrote ''/w/d.js'', SetTimeout 500],
       calls = 2\<rparr>, None)"
proof -
  let ?e = "demo_env\<lparr>write_failure := (\<lambda>p. if p = ''/w/a.js'' then Some ''EACCES'' else None)\<rparr>"
  let ?resp = "\<lparr>choices = Some [\<lparr>message_content = Some (js ''A12'')\<rparr>]\<rparr>"
  have h1: "\<not> dryRun demo_cfg" by (simp add: demo_defs)
  have h2: "files (start demo_fs) ''/w/a.js'' = Inr (js ''A1'')" by (simp add: start_def demo_defs)
  have h3: "service ?e (calls (start demo_fs))
              (the_request demo_cfg (js ''sys'') (js ''{{CONTENT}}'') (js ''A1'')) = Inr ?resp"
    by (simp add: the_request_def run_defs demo_defs)
  have h4: "choices ?resp = Some [\<lparr>message_content = Some (js ''A12'')\<rparr>]" by simp
  have h5: "message_content \<lparr>message_content = Some (js ''A12'')\<rparr> = Some (js ''A12'')" by simp
  have run: "main_loop ?e demo_cfg (js ''sys'') (js ''{{CONTENT}}'') [''/w/a.js'', ''/w/d.js''] (start demo_fs) =
     (\<lparr>files = demo_fs(''/w/d.js'' := Inr (js ''D12'')),
       trace =
        [LogProcessing ''/w/a.js'', ReadFile ''/w/a.js'',
         CreateCompletion \<lparr>req_model = ''gpt-4o-mini'', req_system = js ''sys'', req_user = js ''A1''\<rparr>,
         WriteFile ''/w/a.js'' (js ''A12''), ErrFailedToWrite ''/w/a.js'' ''EACCES'', SetTimeout 500,
         LogProcessing ''/w/d.js'', ReadFile ''/w/d.js'',
         CreateCompletion \<lparr>req_model = ''gpt-4o-mini'', req_system = js ''sys'', req_user = js ''D1''\<rparr>,
         WriteFile ''/w/d.js'' (js ''D12''), LogOverwrote ''/w/d.js'', SetTimeout 500],
       calls = 2\<rparr>, None)"
    by (simp add: run_defs demo_defs)
  show ?thesis
    using h1 h2 run
      overwrite_and_continue [where e = ?e and ps = "[''/w/d.js'']", OF h1 h2 h3 h4 h5]
    by simp
qed

section \<open>A response whose content is null\<close>

text \<open>
  C10: when the file is read and the service answers with a first choice whose content is
  \<^verbatim>\<open>null\<close>, the loop reports the file as skipped and leaves every file as it was; a dry
  run then ends with code 1, any other run goes on with the next file. And in every run
  of the loop, a text that is written to a file is the content, a string, of the first
  choice of a response to a request of that run.
\<close>

theorem null_content_is_skipped:
  assumes "files w p = Inr c"
    and "service e (calls w) (the_request cfg sp tpl c) = Inr resp"
    and "choices resp = Some (ch # chs)"
    and "message_content ch = None"
  shows "main_loop e cfg sp tpl (p # ps) w =
           (if dryRun cfg
            then (\<lparr>files = files w,
                   trace = trace w @ [LogProcessing p, ReadFile p,
                       CreateCompletion (the_request cfg sp tpl c), ErrSkipping p],
                   calls = Suc (calls w)\<rparr>, Some 1)
            else main_loop e cfg sp tpl ps
                   \<lparr>files = files w,
                    trace = trace w @ [LogProcessing p, ReadFile p,
                       CreateCompletion (the_request cfg sp tpl c), ErrSkipping p],
                    calls = Suc (calls w)\<rparr>) \<and>
         (\<forall>es v q t. WriteFile q t \<in> set (trace (fst (main_loop e cfg sp tpl es v))) \<longrightarrow>
            WriteFile q t \<in> set (trace v) \<or>
            (\<exists>n r resp' ch' chs'.
               CreateCompletion r \<in> set (trace (fst (main_loop e cfg sp tpl es v))) \<and>
               service e n r = Inr resp' \<and> choices resp' = Some (ch' # chs') \<and>
               message_content ch' = Some t))"
proof
  show "main_loop e cfg sp tpl (p # ps) w =
           (if dryRun cfg
            then (\<lparr>files = files w,
                   trace = trace w @ [LogProcessing p, ReadFile p,
                       CreateCompletion (the_request cfg sp tpl c), ErrSkipping p],
                   calls = Suc (calls w)\<rparr>, Some 1)
            else main_loop e cfg sp tpl ps
                   \<lparr>files = files w,
                    trace = trace w @ [LogProcessing p, ReadFile p,
                       CreateCompletion (the_request cfg sp tpl c), ErrSkipping p],
                    calls = Suc (calls w)\<rparr>)"
    using assms by (cases w) (simp add: body_defs the_request_def)
next
  show "\<forall>es v q t. WriteFile q t \<in> set (trace (fst (main_loop e cfg sp tpl es v))) \<longrightarrow>
            WriteFile q t \<in> set (trace v) \<or>
            (\<exists>n r resp' ch' chs'.
               CreateCompletion r \<in> set (trace (fst (main_loop e cfg sp tpl es v))) \<and>
               service e n r = Inr resp' \<and> choices resp' = Some (ch' # chs') \<and>
               message_content ch' = Some t)"
    using main_loop_writes_answered by blast
qed


theorem null_content_is_skipped_witness:
  "files (start demo_fs) ''/w/a.js'' = Inr (js ''A1'') \<and>
   main_loop (demo_env\<lparr>service := (\<lambda>n req. Inr \<lparr>choices = Some [\<lparr>message_content = None\<rparr>]\<rparr>)\<rparr>)
      demo_cfg (js ''sys'') (js ''{{CONTENT}}'') [''/w/a.js''] (start demo_fs) =
     (\<lparr>files = demo_fs,
       trace =
        [LogProcessing ''/w/a.js'', ReadFile ''/w/a.js'',
         CreateCompletion \<lparr>req_model = ''gpt-4o-mini'', req_system = js ''sys'', req_user = js ''A1''\<rparr>,
         ErrSkipping ''/w/a.js''],
       calls = 1\<rparr>, None) \<and>
   main_loop (demo_env\<lparr>service := (\<lambda>n req. Inr \<lparr>choices = Some [\<lparr>message_content = None\<rparr>]\<rparr>)\<rparr>)
      (demo_cfg\<lparr>dryRun := True\<rparr>) (js ''sys'') (js ''{{CONTENT}}'') [''/w/a.js''] (start demo_fs) =
     (\<lparr>files = demo_fs,
       trace =
        [LogProcessing ''/w/a.js'', ReadFile ''/w/a.js'',
         CreateCompletion \<lparr>req_model = ''gpt-4o-mini'', req_system = js ''sys'', req_user = js ''A1''\<rparr>,
         ErrSkipping ''/w/a.js''],
       calls = 1\<rparr>, Some 1)"
proof -
  let ?e = "demo_env\<lparr>service := (\<lambda>n req. Inr \<lparr>choices = Some [\<lparr>message_content = None\<rparr>]\<rparr>)\<rparr>"
  let ?resp = "\<lparr>choices = Some [\<lparr>message_content = None\<rparr>]\<rparr>"
  have h1: "files (start demo_fs) ''/w/a.js'' = Inr (js ''A1'')" by (simp add: start_def demo_defs)
  have h2: "service ?e (calls (start demo_fs)) (the_request cfg (js ''sys'') (js ''{{CONTENT}}'') (js ''A1''))
              = Inr ?resp" for cfg
    by simp
  have h3: "choices ?resp = Some [\<lparr>message_content = None\<rparr>]" by simp
  have h4: "message_content \<lparr>message_content = None\<rparr> = None" by simp
  have req: "the_request cfg (js ''sys'') (js ''{{CONTENT}}'') (js ''A1'') =
      \<lparr>req_model = model cfg, req_system = js ''sys'', req_user = js ''A1''\<rparr>" for cfg
    by (simp add: the_request_def run_defs)
  show ?thesis
    using h1
      null_content_is_skipped [where e = ?e and cfg = demo_cfg and ps = "[]", OF h1 h2 h3 h4]
      null_content_is_skipped [where e = ?e and cfg = "demo_cfg\<lparr>dryRun := True\<rparr>" and ps = "[]",
        OF h1 h2 h3 h4]
    by (simp add: req start_def demo_cfg_def)
qed

section \<open>One outcome for each file\<close>

text \<open>
  C9: in a run over distinct matched files, every file that is attempted has exactly one
  outcome (it is reported as skipped, or a write of the returned text is attempted, or
  the text is printed by a dry run); no file is both reported as skipped and overwritten;
  a file that is not reported as overwritten holds the text it had before the run; and
  a file that is reported as overwritten holds a text that was written to it.
\<close>

theorem one_outcome_per_file:
  assumes "glob e (patterns cfg) (ignore cfg) = Inr es" and "distinct es"
  shows "(\<forall>p. LogProcessing p \<in> set (trace (fst (main e cfg sp tpl fs))) \<longrightarrow>
              length (filter (outcome_of p) (trace (fst (main e cfg sp tpl fs)))) = 1) \<and>
         (\<forall>p. \<not> (ErrSkipping p \<in> set (trace (fst (main e cfg sp tpl fs))) \<and>
                  LogOverwrote p \<in> set (trace (fst (main e cfg sp tpl fs))))) \<and>
         (\<forall>p. LogOverwrote p \<notin> set (trace (fst (main e cfg sp tpl fs))) \<longrightarrow>
              files (fst (main e cfg sp tpl fs)) p = fs p) \<and>
         (\<forall>p. LogOverwrote p \<in> set (trace (fst (main e cfg sp tpl fs))) \<longrightarrow>
              (\<exists>t. WriteFile p t \<in> set (trace (fst (main e cfg sp tpl fs))) \<and>
                   files (fst (main e cfg sp tpl fs)) p = Inr t))"
proof (cases "es = [] \<or> no_apiKey e")
  case True
  from main_not_entered [where sp = sp and tpl = tpl and fs = fs, OF assms(1) True]
  show ?thesis by auto
next
  case False
  let ?w0 = "entered cfg es fs"
  obtain w1 x where loop: "main_loop e cfg sp tpl es ?w0 = (w1, x)"
    by (cases "main_loop e cfg sp tpl es ?w0")
  have m: "main e cfg sp tpl fs = (case x of Some code \<Rightarrow> (w1, code) | None \<Rightarrow> (emit LogAllDone w1, 0))"
    using main_entered [where sp = sp and tpl = tpl and fs = fs, OF assms(1)] False loop by simp
  have files: "files (fst (main e cfg sp tpl fs)) = files w1"
    using m by (cases x) (simp_all add: emit_def)
  have in_tr: "ev \<in> set (trace (fst (main e cfg sp tpl fs))) \<longleftrightarrow> ev \<in> set (trace w1)"
    if "ev \<noteq> LogAllDone" for ev
    using m that by (cases x) (auto simp add: emit_def)
  have cnt: "filter (outcome_of p) (trace (fst (main e cfg sp tpl fs))) = filter (outcome_of p) (trace w1)"
    for p
    using m by (cases x) (simp_all add: emit_def)
  have fresh: "filter (outcome_of p) (trace ?w0) = []" "LogProcessing p \<notin> set (trace ?w0)"
    "LogOverwrote p \<notin> set (trace ?w0)" "files ?w0 = fs" for p
    by (simp_all add: entered_def)
  have c1: "committed w1"
    using main_loop_committed [of ?w0 e cfg sp tpl es] loop fresh(3) by (simp add: committed_def)
  have one: "length (filter (outcome_of p) (trace w1)) = 1" if "LogProcessing p \<in> set (trace w1)" for p
  proof (cases "dryRun cfg")
    case True
    from False obtain q qs where es: "es = q # qs" by (cases es) auto
    have w1: "w1 = fst (loop_body e cfg sp tpl q ?w0)"
      using arg_cong [OF loop, of fst] main_loop_dry [OF True, of e sp tpl q qs ?w0] es
      by (simp del: main_loop.simps)
    with that loop_body_processing [of p e cfg sp tpl q ?w0] fresh(2) have "p = q" by simp
    with w1 loop_body_own_outcome [of q e cfg sp tpl ?w0] fresh(1) show ?thesis by simp
  next
    case dry: False
    from main_loop_processing [of p e cfg sp tpl es ?w0] that loop fresh(2) have "p \<in> set es" by simp
    with main_loop_outcomes [OF dry, of p e sp tpl es ?w0] loop assms(2) fresh(1)
    show ?thesis by (simp add: count_list_distinct)
  qed
  have excl: False if s: "ErrSkipping p \<in> set (trace w1)" and o: "LogOverwrote p \<in> set (trace w1)" for p
  proof (cases "dryRun cfg")
    case True
    from False obtain q qs where es: "es = q # qs" by (cases es) auto
    have "w1 = fst (loop_body e cfg sp tpl q ?w0)"
      using arg_cong [OF loop, of fst] main_loop_dry [OF True, of e sp tpl q qs ?w0] es
      by (simp del: main_loop.simps)
    with o loop_body_dry [OF True, of e sp tpl q ?w0 p] fresh(3) show False by simp
  next
    case dry: False
    from c1 o obtain t where t: "WriteFile p t \<in> set (trace w1)" by (auto simp add: committed_def)
    have "2 \<le> length (filter (outcome_of p) (trace w1))"
      by (rule two_in_filter [OF s t]) simp_all
    moreover have "length (filter (outcome_of p) (trace w1)) \<le> 1"
      using main_loop_outcomes [OF dry, of p e sp tpl es ?w0] loop assms(2) fresh(1)
      by (simp add: count_list_distinct)
    ultimately show False by simp
  qed
  have untouched: "files w1 p = fs p" if "LogOverwrote p \<notin> set (trace w1)" for p
    using main_loop_untouched [of p e cfg sp tpl es ?w0] loop that fresh(4) by simp
  show ?thesis
    using one excl untouched c1
    by (simp add: files in_tr cnt committed_def) blast
qed

lemma skip_run:
  "main skip_env demo_cfg (js ''sys'') (js ''{{CONTENT}}'') demo_fs =
    (\<lparr>files = demo_fs(''/w/a.js'' := Inr (js ''A12''), ''/w/d.js'' := Inr (js ''D12'')),
      trace =
       [Glob [''src/*.js''] [], LogFound 4 False,
        LogProcessing ''/w/a.js'', ReadFile ''/w/a.js'',
        CreateCompletion \<lparr>req_model = ''gpt-4o-mini'', req_system = js ''sys'', req_user = js ''A1''\<rparr>,
        WriteFile ''/w/a.js'' (js ''A12''), LogOverwrote ''/w/a.js'', SetTimeout 500,
        LogProcessing ''/w/b.js'', ReadFile ''/w/b.js'', ErrCouldNotRead ''/w/b.js'' ''ENOENT'',
        ErrSkipping ''/w/b.js'',
        LogProcessing ''/w/c.js'', ReadFile ''/w/c.js'',
        CreateCompletion \<lparr>req_model = ''gpt-4o-mini'', req_system = js ''sys'', req_user = js ''C1''\<rparr>,
        ErrRequestFailed ''/w/c.js'' ''503'', ErrSkipping ''/w/c.js'',
        LogProcessing ''/w/d.js'', ReadFile ''/w/d.js'',
        CreateCompletion \<lparr>req_model = ''gpt-4o-mini'', req_system = js ''sys'', req_user = js ''D1''\<rparr>,
        WriteFile ''/w/d.js'' (js ''D12''), LogOverwrote ''/w/d.js'', SetTimeout 500, LogAllDone],
      calls = 3\<rparr>, 0)"
  by (simp add: run_defs demo_defs)

theorem one_outcome_per_file_witness:
  "distinct [''/w/a.js'', ''/w/b.js'', ''/w/c.js'', ''/w/d.js''] \<and>
   glob skip_env (patterns demo_cfg) (ignore demo_cfg)
     = Inr [''/w/a.js'', ''/w/b.js'', ''/w/c.js'', ''/w/d.js''] \<and>
   length (filter (outcome_of ''/w/a.js'')
      (trace (fst (main skip_env demo_cfg (js ''sys'') (js ''{{CONTENT}}'') demo_fs)))) = 1 \<and>
   length (filter (outcome_of ''/w/b.js'')
      (trace (fst (main skip_env demo_cfg (js ''sys'') (js ''{{CONTENT}}'') demo_fs)))) = 1 \<and>
   files (fst (main skip_env demo_cfg (js ''sys'') (js ''{{CONTENT}}'') demo_fs)) ''/w/b.js''
     = demo_fs ''/w/b.js'' \<and>
   files (fst (main skip_env demo_cfg (js ''sys'') (js ''{{CONTENT}}'') demo_fs)) ''/w/a.js''
     = Inr (js ''A12'')"
proof -
  have h1: "glob skip_env (patterns demo_cfg) (ignore demo_cfg)
              = Inr [''/w/a.js'', ''/w/b.js'', ''/w/c.js'', ''/w/d.js'']"
    by (simp add: demo_defs)
  have h2: "distinct [''/w/a.js'', ''/w/b.js'', ''/w/c.js'', ''/w/d.js'']" by simp
  show ?thesis
    using h1 h2
      one_outcome_per_file [where sp = "js ''sys''" and tpl = "js ''{{CONTENT}}''" and fs = demo_fs,
        OF h1 h2]
    by (simp add: skip_run)
qed

section \<open>The renderer\<close>











lemmas render_defs =
  render_userPrompt_def count_tokens_def match_token_def is_space_def js_def Let_def







text \<open>
  A dollar sign in the content is not copied: \<^verbatim>\<open>$&\<close> brings the token back,
  \<^verbatim>\<open>$$\<close> becomes one dollar sign, \<^verbatim>\<open>$`\<close> and \<^verbatim>\<open>$'\<close> copy the template around
  the match.
\<close>

lemma render_dollar_patterns:
  "render_userPrompt (js ''a{{CONTENT}}b'') (js ''x$&y$$z$1'') = js ''ax{{CONTENT}}y$z$1b'' \<and>
   render_userPrompt (js ''a{{CONTENT}}b'') [0x24, 0x60, 0x24, 0x27] = js ''aabb''"
  by (simp add: render_defs)

end
